theory Spec2Isabelle
  imports Complex_Main "HOL-Library.Sublist"
begin

section \<open>Strings\<close>

text \<open>
  The evaluation scripts work on Python \<open>str\<close> values. A string is modelled as a HOL
  \<open>string\<close>; a \<open>char\<close> stands for the code point of the same number, so the
  model covers the code points 0 to 255 (ASCII and Latin-1). Code points above 255 are
  outside the model.
\<close>

definition isspace :: "char \<Rightarrow> bool" where
  \<comment> \<open>\<open>str.isspace\<close> on one character, which is also the class \<open>\s\<close> of \<open>re\<close>
      on \<open>str\<close> patterns: TAB, LF, VT, FF, CR, FS, GS, RS, US, SPACE, NEL, NBSP.\<close>
  "isspace c = (c \<in> set [CHR 0x09, CHR 0x0A, CHR 0x0B, CHR 0x0C, CHR 0x0D,
                          CHR 0x1C, CHR 0x1D, CHR 0x1E, CHR 0x1F, CHR 0x20,
                          CHR 0x85, CHR 0xA0])"

definition is_upper :: "char \<Rightarrow> bool" where
  \<comment> \<open>the code points below 256 that \<open>str.lower()\<close> changes: A to Z, and the
      Latin-1 capitals 0xC0 to 0xDE but the multiplication sign 0xD7\<close>
  "is_upper c =
     (let n = of_char c :: nat in
      (65 \<le> n \<and> n \<le> 90) \<or> (192 \<le> n \<and> n \<le> 222 \<and> n \<noteq> 215))"

definition lower_char :: "char \<Rightarrow> char" where
  \<comment> \<open>the lower-case form of one code point below 256: a capital moves up by 32,
      which sets the bit of weight 32 (it is clear in every capital)\<close>
  "lower_char c =
     (if is_upper c
      then (case c of Char b0 b1 b2 b3 b4 b5 b6 b7 \<Rightarrow> Char b0 b1 b2 b3 b4 True b6 b7)
      else c)"

definition lower :: "string \<Rightarrow> string" where
  \<comment> \<open>\<open>str.lower()\<close>\<close>
  "lower s = map lower_char s"

definition strip :: "string \<Rightarrow> string" where
  \<comment> \<open>\<open>str.strip()\<close>: white space removed at both ends\<close>
  "strip s = rev (dropWhile isspace (rev (dropWhile isspace s)))"

fun contains :: "string \<Rightarrow> string \<Rightarrow> bool" where
  \<comment> \<open>\<open>contains w s\<close> is Python's \<open>w in s\<close> on strings\<close>
  "contains w [] = (w = [])"
| "contains w (c # cs) = (prefix w (c # cs) \<or> contains w cs)"

fun split_aux :: "string \<Rightarrow> string \<Rightarrow> string list" where
  "split_aux cur [] = (if cur = [] then [] else [cur])"
| "split_aux cur (c # cs) =
     (if isspace c then (if cur = [] then split_aux [] cs else cur # split_aux [] cs)
      else split_aux (cur @ [c]) cs)"

definition split :: "string \<Rightarrow> string list" where
  \<comment> \<open>\<open>str.split()\<close> with no argument: the maximal runs of non-space characters\<close>
  "split s = split_aux [] s"

fun join :: "string \<Rightarrow> string list \<Rightarrow> string" where
  \<comment> \<open>\<open>sep.join(parts)\<close>\<close>
  "join sep [] = []"
| "join sep [w] = w"
| "join sep (w # v # ws) = w @ sep @ join sep (v # ws)"

definition is_linebreak :: "char \<Rightarrow> bool" where
  \<comment> \<open>the line boundaries of \<open>str.splitlines()\<close> below code point 256:
      LF, VT, FF, CR, FS, GS, RS, NEL (CR LF counts as one boundary)\<close>
  "is_linebreak c = (c \<in> set [CHR 0x0A, CHR 0x0B, CHR 0x0C, CHR 0x0D,
                              CHR 0x1C, CHR 0x1D, CHR 0x1E, CHR 0x85])"

fun splitlines_aux :: "string \<Rightarrow> string \<Rightarrow> string list" where
  "splitlines_aux cur [] = (if cur = [] then [] else [cur])"
| "splitlines_aux cur [c] = (if is_linebreak c then [cur] else [cur @ [c]])"
| "splitlines_aux cur (c # d # cs) =
     (if c = CHR 0x0D \<and> d = CHR 0x0A then cur # splitlines_aux [] cs
      else if is_linebreak c then cur # splitlines_aux [] (d # cs)
      else splitlines_aux (cur @ [c]) (d # cs))"

definition splitlines :: "string \<Rightarrow> string list" where
  \<comment> \<open>\<open>str.splitlines()\<close>: the lines without their line breaks\<close>
  "splitlines s = splitlines_aux [] s"

fun str_remove :: "string \<Rightarrow> string \<Rightarrow> string" where
  \<comment> \<open>\<open>s.replace(old, "")\<close>: the occurrences of \<open>old\<close> are deleted from left to
      right, without overlap; an empty \<open>old\<close> leaves \<open>s\<close> as it is\<close>
  "str_remove old [] = []"
| "str_remove old (c # cs) =
     (if old \<noteq> [] \<and> prefix old (c # cs)
      then str_remove old (drop (length old) (c # cs))
      else c # str_remove old cs)"

section \<open>The regular expressions of the answer parser\<close>

text \<open>
  Each pattern of \<open>parse_model_answer\<close> is written out as the function that computes
  what \<open>re\<close> computes for it: the leftmost match, found by backtracking. With the flag
  \<open>re.I\<close> a literal matches a character whose lower-case form is the literal.
  The two scripts hold the same parser: the anatomy script writes \<open>re.match\<close> with
  \<open>^\<close> and \<open>$\<close> where the image script writes \<open>re.fullmatch\<close>, which is the same on
  a stripped string whose last class takes white space.
\<close>

definition open_punct :: "char \<Rightarrow> bool" where
  \<comment> \<open>the class \<open>[\(\[\{\'\"\.\s]\<close>\<close>
  "open_punct c = (c \<in> set [CHR ''('', CHR ''['', CHR ''{'', CHR 0x27, CHR 0x22, CHR ''.'']
                   \<or> isspace c)"

definition close_punct :: "char \<Rightarrow> bool" where
  \<comment> \<open>the class \<open>[\)\]\}\'\"\.\s]\<close>\<close>
  "close_punct c = (c \<in> set [CHR '')'', CHR '']'', CHR ''}'', CHR 0x27, CHR 0x22, CHR ''.'']
                    \<or> isspace c)"

definition is_term :: "char \<Rightarrow> bool" where
  \<comment> \<open>the class \<open>[.!?]\<close>\<close>
  "is_term c = (c \<in> set [CHR ''.'', CHR ''!'', CHR ''?''])"

fun ci_prefix :: "string \<Rightarrow> string \<Rightarrow> bool" where
  \<comment> \<open>the lower-case literal \<open>w\<close> matches at the start of \<open>s\<close> under \<open>re.I\<close>\<close>
  "ci_prefix [] s = True"
| "ci_prefix (w # ws) [] = False"
| "ci_prefix (w # ws) (c # cs) = (if lower_char c = w then ci_prefix ws cs else False)"

definition digit_at :: "string \<Rightarrow> (string \<times> string) option" where
  \<comment> \<open>the group \<open>(0|1)\<close> at the start of \<open>s\<close>: the token and the rest\<close>
  "digit_at s =
     (if prefix ''0'' s then Some (''0'', drop 1 s)
      else if prefix ''1'' s then Some (''1'', drop 1 s)
      else None)"

definition yesno_at :: "string \<Rightarrow> (string \<times> string) option" where
  \<comment> \<open>the group \<open>(yes|no)\<close> under \<open>re.I\<close>: the token in lower case and the rest\<close>
  "yesno_at s =
     (if ci_prefix ''yes'' s then Some (''yes'', drop 3 s)
      else if ci_prefix ''no'' s then Some (''no'', drop 2 s)
      else None)"

definition token_at :: "string \<Rightarrow> (string \<times> string) option" where
  \<comment> \<open>the group \<open>(0|1|yes|no)\<close> under \<open>re.I\<close>\<close>
  "token_at s =
     (if ci_prefix ''0'' s then Some (''0'', drop 1 s)
      else if ci_prefix ''1'' s then Some (''1'', drop 1 s)
      else yesno_at s)"

definition sdigit :: "string \<Rightarrow> string option" where
  \<comment> \<open>\<open>re.fullmatch(r'[\(\[\{\'\"\.\s]*(0|1)[\)\]\}\'\"\.\s]*', s.strip())\<close>, group 1.
      No character of the first class starts the group, so the first star takes
      the whole run of the class.\<close>
  "sdigit s =
     (case digit_at (dropWhile open_punct (strip s)) of
        Some (d, rest) \<Rightarrow> if list_all close_punct rest then Some d else None
      | None \<Rightarrow> None)"

definition syesno :: "string \<Rightarrow> string option" where
  \<comment> \<open>\<open>re.fullmatch(r'[\(\[\{\'\"\.\s]*(yes|no)[\)\]\}\'\"\.\s]*', s.strip(), re.I)\<close>,
      group 1 in lower case\<close>
  "syesno s =
     (case yesno_at (dropWhile open_punct (strip s)) of
        Some (yn, rest) \<Rightarrow> if list_all close_punct rest then Some yn else None
      | None \<Rightarrow> None)"

fun search_end_token :: "string \<Rightarrow> string option" where
  \<comment> \<open>\<open>re.search(r'(0|1|yes|no)[\)\]\}\'\"\.\s]*$', t, re.I)\<close>, group 1 in lower
      case: the leftmost position where a token is followed by characters of the
      class only, up to the end\<close>
  "search_end_token [] = None"
| "search_end_token (c # cs) =
     (case token_at (c # cs) of
        Some (tok, rest) \<Rightarrow> if list_all close_punct rest then Some tok else search_end_token cs
      | None \<Rightarrow> search_end_token cs)"

definition se_token :: "string \<Rightarrow> string option" where
  \<comment> \<open>\<open>re.match(r'^[\(\[\{\'\"\.\s]*(0|1|yes|no)', s.strip(), re.I)\<close>, and when that
      fails the search for a token at the end\<close>
  "se_token s =
     (let t = strip s in
      case token_at (dropWhile open_punct t) of
        Some (tok, rest) \<Rightarrow> Some tok
      | None \<Rightarrow> search_end_token t)"

definition first_clause :: "string \<Rightarrow> string option" where
  \<comment> \<open>\<open>re.search(r'[^.!?]+[.!?]?', cleaned)\<close>, group 0: the first run of characters
      other than \<open>. ! ?\<close>, with the one such character that follows it, if any\<close>
  "first_clause s =
     (let r = dropWhile is_term s in
      if r = [] then None
      else Some (takeWhile (\<lambda>c. \<not> is_term c) r @ take 1 (dropWhile (\<lambda>c. \<not> is_term c) r)))"

definition keyword_at :: "string \<Rightarrow> string option" where
  \<comment> \<open>the group \<open>(?:answer|correct answer|final answer|solution|response)\<close> under
      \<open>re.I\<close> at the start of \<open>s\<close>: what follows the keyword\<close>
  "keyword_at s =
     (if ci_prefix ''answer'' s then Some (drop 6 s)
      else if ci_prefix ''correct answer'' s then Some (drop 14 s)
      else if ci_prefix ''final answer'' s then Some (drop 12 s)
      else if ci_prefix ''solution'' s then Some (drop 8 s)
      else if ci_prefix ''response'' s then Some (drop 8 s)
      else None)"

definition keyword_digit_at :: "string \<Rightarrow> char option" where
  \<comment> \<open>the whole pattern \<open>keyword(?: is|:)?\s*([10])\<close> at the start of \<open>s\<close>: group 1.
      When \<open> is\<close> or \<open>:\<close> is there and no digit follows it, leaving it out does not
      help: the digit would have to be at the \<open>i\<close> or the colon.\<close>
  "keyword_digit_at s =
     (case keyword_at s of
        None \<Rightarrow> None
      | Some r \<Rightarrow>
          (let r1 = (if ci_prefix '' is'' r then drop 3 r
                     else if ci_prefix '':'' r then drop 1 r
                     else r)
           in case dropWhile isspace r1 of
                [] \<Rightarrow> None
              | c # _ \<Rightarrow> if c = CHR ''1'' \<or> c = CHR ''0'' then Some c else None))"

fun search_keyword_digit :: "string \<Rightarrow> char option" where
  \<comment> \<open>\<open>re.search\<close> of that pattern: the leftmost position where it matches\<close>
  "search_keyword_digit [] = None"
| "search_keyword_digit (c # cs) =
     (case keyword_digit_at (c # cs) of
        Some d \<Rightarrow> Some d
      | None \<Rightarrow> search_keyword_digit cs)"

section \<open>The direction fallback and the answer parser\<close>

definition pairs :: "(string \<times> string) list" where
  "pairs = [(''above'', ''below''), (''below'', ''above''),
            (''left'', ''right''), (''right'', ''left'')]"

fun scan_pairs :: "(string \<times> string) list \<Rightarrow> string \<Rightarrow> string \<Rightarrow> int option" where
  \<comment> \<open>the \<open>for d, opp in pairs\<close> loop of \<open>parse_spatial_relation\<close>\<close>
  "scan_pairs [] ql al = None"
| "scan_pairs ((d, opp) # ps) ql al =
     (if contains d ql then
        (if contains d al then Some 1
         else if contains opp al then Some 0
         else scan_pairs ps ql al)
      else scan_pairs ps ql al)"

definition parse_spatial_relation :: "string \<Rightarrow> string \<Rightarrow> int option" where
  "parse_spatial_relation q a = scan_pairs pairs (lower q) (lower a)"

definition strip_prompt :: "string \<Rightarrow> string \<Rightarrow> string" where
  \<comment> \<open>the loop \<open>for l in prompt.splitlines()\<close>: every non-blank line of the prompt,
      stripped, is deleted from the text\<close>
  "strip_prompt prompt txt =
     fold (\<lambda>l cleaned. let ls = strip l in if ls \<noteq> [] then str_remove ls cleaned else cleaned)
          (splitlines prompt) txt"

definition short_sentence :: "string \<Rightarrow> bool" where
  \<comment> \<open>the guard of tier D: no line feed, at most one of \<open>. ! ?\<close>, under 150 characters\<close>
  "short_sentence txt =
     (CHR 0x0A \<notin> set txt \<and> length (filter is_term txt) \<le> 1 \<and> length txt < 150)"

definition parse_model_answer :: "string \<Rightarrow> string \<Rightarrow> string \<Rightarrow> int option \<times> string option" where
  "parse_model_answer ans q prompt =
     (let txt = strip ans in
      case sdigit txt of
        Some d \<Rightarrow> (Some (if d = ''1'' then 1 else 0), None)
      | None \<Rightarrow>
      (case syesno txt of
        Some yn \<Rightarrow> (Some (if yn = ''yes'' then 1 else 0), None)
      | None \<Rightarrow>
      (case se_token txt of
        Some tok \<Rightarrow> (Some (if tok = ''1'' \<or> tok = ''yes'' then 1 else 0), None)
      | None \<Rightarrow>
      (case (if short_sentence txt then parse_spatial_relation q txt else None) of
        Some sr \<Rightarrow> (Some sr, None)
      | None \<Rightarrow>
      (let cleaned = strip_prompt prompt txt in
       case (case first_clause cleaned of
               Some m \<Rightarrow> parse_spatial_relation q (strip m)
             | None \<Rightarrow> None) of
         Some sr2 \<Rightarrow> (Some sr2, Some cleaned)
       | None \<Rightarrow>
       (case search_keyword_digit cleaned of
          Some g \<Rightarrow> (Some (if g = CHR ''1'' then 1 else 0), Some cleaned)
        | None \<Rightarrow> (None, Some cleaned)))))))"

section \<open>Run files, metrics and the image evaluator\<close>

text \<open>
  A run file is the list of its entries, as \<open>json.load\<close> returns it. The fields
  \<open>question\<close> and \<open>entire_prompt\<close> hold the empty string when the key is absent,
  which is the default both scripts read them with; \<open>model_answer\<close> is taken to be
  there. \<open>expected_answer\<close> and the two object names are options, \<open>None\<close> for an
  absent key: the image script raises KeyError on a record without
  \<open>expected_answer\<close>, the anatomy script tests for it.
\<close>

record qa_record =
  question :: string
  model_answer :: string
  expected_answer :: "int option"
  entire_prompt :: string
  object1_name :: "string option"
  object2_name :: "string option"

record entry =
  file_name :: string
  results_call :: "qa_record list"

datatype error = KeyError | ValueError | StatisticsError | AttributeError

text \<open>A Python float is a real number or NaN; rounding is not modelled.\<close>

datatype score = NaN | Fin real

text \<open>
  The scripts call scikit-learn and \<open>statistics\<close> at three places where the releases
  of these libraries do not agree, and the repository pins no release. What the
  library does there is a parameter of the model:
  \<^item> \<open>accuracy_score([], [])\<close> is nan, with a warning, in scikit-learn 1.7 and raises
    ValueError in scikit-learn 1.9;
  \<^item> \<open>f1_score([], [], zero_division=0)\<close> is 0.0 in the former and raises ValueError
    in the latter;
  \<^item> \<open>statistics.stdev\<close> of data that hold a NaN raises AttributeError in CPython
    3.11, and is nan where the release lets a NaN through.
\<close>

record library =
  accuracy_of_empty :: "error + score"
  f1_of_empty :: "error + score"
  stdev_of_nan :: "error + score"

definition lenient_library :: library where
  \<comment> \<open>scikit-learn 1.7, and a \<open>statistics\<close> that lets a NaN through\<close>
  "lenient_library =
     \<lparr>accuracy_of_empty = Inr NaN, f1_of_empty = Inr (Fin 0), stdev_of_nan = Inr NaN\<rparr>"

definition strict_library :: library where
  \<comment> \<open>scikit-learn 1.9 with CPython 3.11\<close>
  "strict_library =
     \<lparr>accuracy_of_empty = Inl ValueError, f1_of_empty = Inl ValueError,
      stdev_of_nan = Inl AttributeError\<rparr>"

definition count_pairs :: "(int \<Rightarrow> int \<Rightarrow> bool) \<Rightarrow> int list \<Rightarrow> int list \<Rightarrow> nat" where
  "count_pairs P targs preds = length (filter (\<lambda>(t, p). P t p) (zip targs preds))"

definition accuracy_score :: "library \<Rightarrow> int list \<Rightarrow> int list \<Rightarrow> error + score" where
  \<comment> \<open>\<open>sklearn.metrics.accuracy_score(y_true, y_pred)\<close>: the fraction of positions
      where the two lists agree; on empty lists, what the release at hand does\<close>
  "accuracy_score lib targs preds =
     (if length targs \<noteq> length preds then Inl ValueError
      else if targs = [] then accuracy_of_empty lib
      else Inr (Fin (real (count_pairs (\<lambda>t p. t = p) targs preds) / real (length targs))))"

definition f1_score :: "library \<Rightarrow> int list \<Rightarrow> int list \<Rightarrow> error + score" where
  \<comment> \<open>\<open>sklearn.metrics.f1_score(y_true, y_pred, zero_division=0)\<close> with the default
      \<open>average='binary'\<close> and \<open>pos_label=1\<close>: more than two labels, or two labels
      neither of which is 1, are refused; a zero denominator gives 0; on empty
      lists, what the release at hand does\<close>
  "f1_score lib targs preds =
     (let labels = remdups (targs @ preds) in
      if length targs \<noteq> length preds then Inl ValueError
      else if targs = [] then f1_of_empty lib
      else if length labels > 2 then Inl ValueError
      else if length labels = 2 \<and> 1 \<notin> set labels then Inl ValueError
      else
        (let tp = count_pairs (\<lambda>t p. t = 1 \<and> p = 1) targs preds;
             fp = count_pairs (\<lambda>t p. t \<noteq> 1 \<and> p = 1) targs preds;
             fn = count_pairs (\<lambda>t p. t = 1 \<and> p \<noteq> 1) targs preds
         in Inr (Fin (if 2 * tp + fp + fn = 0 then 0
                      else real (2 * tp) / real (2 * tp + fp + fn)))))"

record run_state =
  preds :: "int list"
  targs :: "int list"
  correct :: nat
  incorrect :: nat
  unsure :: nat

record run_metrics =
  accuracy :: score
  f1 :: score
  correct_count :: nat
  incorrect_count :: nat
  unsure_count :: nat

definition init_state :: run_state where
  "init_state = \<lparr>preds = [], targs = [], correct = 0, incorrect = 0, unsure = 0\<rparr>"

definition eval_call :: "run_state \<Rightarrow> qa_record \<Rightarrow> error + run_state" where
  \<comment> \<open>the body of the inner loop of \<open>evaluate_run\<close>; \<open>call["expected_answer"]\<close>
      raises KeyError when the key is absent\<close>
  "eval_call st call =
     (case expected_answer call of
        None \<Rightarrow> Inl KeyError
      | Some expected \<Rightarrow>
          (let parsed = fst (parse_model_answer (model_answer call) (question call)
                               (entire_prompt call));
               pred = (case parsed of None \<Rightarrow> 1 - expected | Some v \<Rightarrow> v);
               st1 = (case parsed of None \<Rightarrow> st\<lparr>unsure := unsure st + 1\<rparr> | Some v \<Rightarrow> st);
               st2 = (if pred = expected then st1\<lparr>correct := correct st1 + 1\<rparr>
                      else st1\<lparr>incorrect := incorrect st1 + 1\<rparr>)
           in Inr (st2\<lparr>preds := preds st2 @ [pred], targs := targs st2 @ [expected]\<rparr>)))"

fun eval_calls :: "run_state \<Rightarrow> qa_record list \<Rightarrow> error + run_state" where
  "eval_calls st [] = Inr st"
| "eval_calls st (call # calls) =
     (case eval_call st call of Inl e \<Rightarrow> Inl e | Inr st' \<Rightarrow> eval_calls st' calls)"

fun eval_entries :: "run_state \<Rightarrow> entry list \<Rightarrow> error + run_state" where
  "eval_entries st [] = Inr st"
| "eval_entries st (e # es) =
     (case eval_calls st (results_call e) of Inl err \<Rightarrow> Inl err | Inr st' \<Rightarrow> eval_entries st' es)"

definition evaluate_run :: "library \<Rightarrow> entry list \<Rightarrow> error + run_metrics" where
  \<comment> \<open>the two metrics are called on the lists as they are, empty or not\<close>
  "evaluate_run lib data =
     (case eval_entries init_state data of
        Inl e \<Rightarrow> Inl e
      | Inr st \<Rightarrow>
          (case accuracy_score lib (targs st) (preds st) of
             Inl e \<Rightarrow> Inl e
           | Inr acc \<Rightarrow>
               (case f1_score lib (targs st) (preds st) of
                  Inl e \<Rightarrow> Inl e
                | Inr f \<Rightarrow>
                    Inr \<lparr>accuracy = acc, f1 = f, correct_count = correct st,
                         incorrect_count = incorrect st, unsure_count = unsure st\<rparr>)))"

section \<open>Aggregation over the runs\<close>

definition fin_values :: "score list \<Rightarrow> real list option" where
  "fin_values xs = those (map (\<lambda>x. case x of NaN \<Rightarrow> None | Fin r \<Rightarrow> Some r) xs)"

definition mean :: "score list \<Rightarrow> error + score" where
  \<comment> \<open>\<open>statistics.mean\<close>: StatisticsError on no data; a NaN among the data gives NaN\<close>
  "mean xs =
     (if xs = [] then Inl StatisticsError
      else case fin_values xs of
             None \<Rightarrow> Inr NaN
           | Some rs \<Rightarrow> Inr (Fin (sum_list rs / real (length rs))))"

definition stdev :: "library \<Rightarrow> score list \<Rightarrow> error + score" where
  \<comment> \<open>\<open>statistics.stdev\<close>: the square root of the sample variance, with \<open>n - 1\<close> in
      the denominator; StatisticsError on fewer than two values; on data that hold
      a NaN, what the release at hand does\<close>
  "stdev lib xs =
     (if length xs < 2 then Inl StatisticsError
      else case fin_values xs of
             None \<Rightarrow> stdev_of_nan lib
           | Some rs \<Rightarrow>
               (let m = sum_list rs / real (length rs)
                in Inr (Fin (sqrt (sum_list (map (\<lambda>x. (x - m)\<^sup>2) rs) / real (length rs - 1))))))"

definition safe_stdev :: "library \<Rightarrow> score list \<Rightarrow> error + score" where
  "safe_stdev lib x = (if length x > 1 then stdev lib x else Inr (Fin 0))"

record aggregated =
  accuracy_mean :: score
  accuracy_std :: score
  f1_mean :: score
  f1_std :: score

definition aggregate :: "library \<Rightarrow> run_metrics list \<Rightarrow> error + aggregated" where
  \<comment> \<open>\<open>process_runs\<close> after the runs are evaluated: the dictionary \<open>aggregated\<close>\<close>
  "aggregate lib rms =
     (let accs = map accuracy rms; f1s = map f1 rms in
      case mean accs of Inl e \<Rightarrow> Inl e | Inr am \<Rightarrow>
      (case safe_stdev lib accs of Inl e \<Rightarrow> Inl e | Inr asd \<Rightarrow>
      (case mean f1s of Inl e \<Rightarrow> Inl e | Inr fm \<Rightarrow>
      (case safe_stdev lib f1s of Inl e \<Rightarrow> Inl e | Inr fsd \<Rightarrow>
         Inr \<lparr>accuracy_mean = am, accuracy_std = asd, f1_mean = fm, f1_std = fsd\<rparr>))))"

fun evaluate_runs :: "library \<Rightarrow> entry list list \<Rightarrow> error + run_metrics list" where
  \<comment> \<open>\<open>[evaluate_run(fp) for fp in run_files]\<close>, on the contents of the files\<close>
  "evaluate_runs lib [] = Inr []"
| "evaluate_runs lib (d # ds) =
     (case evaluate_run lib d of
        Inl e \<Rightarrow> Inl e
      | Inr rm \<Rightarrow> (case evaluate_runs lib ds of Inl e \<Rightarrow> Inl e | Inr rms \<Rightarrow> Inr (rm # rms)))"

definition process_runs ::
  "library \<Rightarrow> entry list list \<Rightarrow> error + (aggregated \<times> run_metrics list)" where
  "process_runs lib run_files =
     (case evaluate_runs lib run_files of
        Inl e \<Rightarrow> Inl e
      | Inr rms \<Rightarrow> (case aggregate lib rms of Inl e \<Rightarrow> Inl e | Inr agg \<Rightarrow> Inr (agg, rms)))"

section \<open>The anatomy evaluator\<close>

definition canon_name :: "string \<Rightarrow> string" where
  "canon_name raw =
     (let name = strip (lower raw); parts = split name in
      case parts of
        [] \<Rightarrow> name
      | w # rest \<Rightarrow>
          if w = ''left'' \<or> w = ''right'' then join ''_'' rest @ ''_'' @ w
          else join ''_'' parts)"

text \<open>
  The pattern \<open>is the (.+?) to the (left|right) of the (.+?)\?\<close> under \<open>re.I\<close>. A dot
  matches any character but the line feed, and a lazy group takes the fewest
  characters, at least one, for which the rest of the pattern matches.
\<close>

fun object2_scan :: "string \<Rightarrow> string \<Rightarrow> string option" where
  \<comment> \<open>\<open>(.+?)\?\<close> with \<open>acc\<close> already taken into the group\<close>
  "object2_scan acc [] = None"
| "object2_scan acc (c # cs) =
     (if acc \<noteq> [] \<and> c = CHR ''?'' then Some acc
      else if c = CHR 0x0A then None
      else object2_scan (acc @ [c]) cs)"

definition relation_at :: "string \<Rightarrow> string option" where
  \<comment> \<open>\<open> to the (left|right) of the \<close> at the start of \<open>s\<close>: what follows it\<close>
  "relation_at s =
     (if ci_prefix '' to the left of the '' s then Some (drop 20 s)
      else if ci_prefix '' to the right of the '' s then Some (drop 21 s)
      else None)"

fun object1_scan :: "string \<Rightarrow> string \<Rightarrow> (string \<times> string) option" where
  \<comment> \<open>\<open>(.+?) to the (left|right) of the (.+?)\?\<close> with \<open>acc\<close> already taken into
      the first group: groups 1 and 3\<close>
  "object1_scan acc [] = None"
| "object1_scan acc (c # cs) =
     (case (if acc \<noteq> [] then
              (case relation_at (c # cs) of
                 Some r \<Rightarrow> object2_scan [] r
               | None \<Rightarrow> None)
            else None) of
        Some o2 \<Rightarrow> Some (acc, o2)
      | None \<Rightarrow> if c = CHR 0x0A then None else object1_scan (acc @ [c]) cs)"

fun search_objects :: "string \<Rightarrow> (string \<times> string) option" where
  \<comment> \<open>\<open>re.search\<close> of the pattern: the leftmost \<open>is the \<close> from where it matches\<close>
  "search_objects [] = None"
| "search_objects (c # cs) =
     (case (if ci_prefix ''is the '' (c # cs) then object1_scan [] (drop 7 (c # cs)) else None) of
        Some r \<Rightarrow> Some r
      | None \<Rightarrow> search_objects cs)"

definition falsy :: "string option \<Rightarrow> bool" where
  \<comment> \<open>Python's \<open>not obj\<close> on \<open>None\<close> or a string\<close>
  "falsy obj = (obj = None \<or> obj = Some [])"

definition resolve_objects :: "qa_record \<Rightarrow> string option \<times> string option" where
  \<comment> \<open>the names \<open>obj1, obj2\<close> of a record: its own, or the groups of the question\<close>
  "resolve_objects r =
     (if falsy (object1_name r) \<or> falsy (object2_name r) then
        (case search_objects (question r) of
           Some (g1, g3) \<Rightarrow> (Some (strip g1), Some (strip g3))
         | None \<Rightarrow> (object1_name r, object2_name r))
      else (object1_name r, object2_name r))"

type_synonym centres = "string \<Rightarrow> (string \<Rightarrow> (real \<times> real) option) option"

definition anatomy_truth :: "centres \<Rightarrow> string \<Rightarrow> qa_record \<Rightarrow> int option" where
  \<comment> \<open>the label \<open>real\<close> of the anatomy view, or \<open>None\<close> where the loop goes on to
      the next record\<close>
  "anatomy_truth centre_map fname r =
     (case resolve_objects r of
        (Some obj1, Some obj2) \<Rightarrow>
          (case centre_map fname of
             None \<Rightarrow> None
           | Some cm \<Rightarrow>
               if obj1 = [] \<or> obj2 = [] then None
               else
                 (case (cm (canon_name obj1), cm (canon_name obj2)) of
                    (Some (cx1, cy1), Some (cx2, cy2)) \<Rightarrow>
                      Some (if (contains '' to the left of '' (lower (question r)) \<and> cx1 > cx2) \<or>
                               (contains '' to the right of '' (lower (question r)) \<and> cx1 < cx2)
                            then 1 else 0)
                  | _ \<Rightarrow> None))
      | _ \<Rightarrow> None)"

record anat_state =
  anat_preds :: "int list"
  anat_targs :: "int list"
  img_preds :: "int list"
  img_targs :: "int list"
  anat_corr :: nat
  anat_wrong :: nat
  anat_tot :: nat
  img_corr :: nat
  img_wrong :: nat
  img_tot :: nat

definition init_anat_state :: anat_state where
  "init_anat_state = \<lparr>anat_preds = [], anat_targs = [], img_preds = [], img_targs = [],
     anat_corr = 0, anat_wrong = 0, anat_tot = 0, img_corr = 0, img_wrong = 0, img_tot = 0\<rparr>"

definition substituted_answer :: "qa_record \<Rightarrow> int" where
  \<comment> \<open>the label \<open>pa\<close>: the parsed one, or \<open>1 - (exp if exp is not None else 1)\<close>\<close>
  "substituted_answer r =
     (case fst (parse_model_answer (model_answer r) (question r) (entire_prompt r)) of
        Some v \<Rightarrow> v
      | None \<Rightarrow> 1 - (case expected_answer r of Some e \<Rightarrow> e | None \<Rightarrow> 1))"

definition eval_record :: "centres \<Rightarrow> string \<Rightarrow> anat_state \<Rightarrow> qa_record \<Rightarrow> anat_state" where
  \<comment> \<open>the body of the inner loop of \<open>eval_run\<close>\<close>
  "eval_record centre_map fname st r =
     (if \<not> contains ''left'' (lower (question r)) \<and> \<not> contains ''right'' (lower (question r))
      then st
      else
        (let pa = substituted_answer r;
             st1 = (case expected_answer r of
                      None \<Rightarrow> st
                    | Some e \<Rightarrow>
                        st\<lparr>img_tot := img_tot st + 1,
                           img_corr := img_corr st + (if pa = e then 1 else 0),
                           img_wrong := img_wrong st + (if pa \<noteq> e then 1 else 0),
                           img_preds := img_preds st @ [pa],
                           img_targs := img_targs st @ [e]\<rparr>)
         in case anatomy_truth centre_map fname r of
              None \<Rightarrow> st1
            | Some truth \<Rightarrow>
                st1\<lparr>anat_tot := anat_tot st1 + 1,
                    anat_corr := anat_corr st1 + (if pa = truth then 1 else 0),
                    anat_wrong := anat_wrong st1 + (if pa \<noteq> truth then 1 else 0),
                    anat_preds := anat_preds st1 @ [pa],
                    anat_targs := anat_targs st1 @ [truth]\<rparr>))"

definition eval_entry :: "centres \<Rightarrow> anat_state \<Rightarrow> entry \<Rightarrow> anat_state" where
  "eval_entry centre_map st e = fold (\<lambda>r s. eval_record centre_map (file_name e) s r) (results_call e) st"

record anat_metrics =
  anat_acc :: score
  anat_f1 :: score
  anat_correct :: nat
  anat_incorrect :: nat
  anat_total :: nat
  img_acc :: score
  img_f1 :: score
  img_correct :: nat
  img_incorrect :: nat
  img_total :: nat

definition guarded :: "(int list \<Rightarrow> int list \<Rightarrow> error + score) \<Rightarrow> int list \<Rightarrow> int list \<Rightarrow> error + score" where
  \<comment> \<open>\<open>metric(targs, preds) if targs else float('nan')\<close>\<close>
  "guarded metric ts ps = (if ts \<noteq> [] then metric ts ps else Inr NaN)"

definition eval_run :: "library \<Rightarrow> entry list \<Rightarrow> centres \<Rightarrow> error + anat_metrics" where
  "eval_run lib data centre_map =
     (let st = fold (\<lambda>e s. eval_entry centre_map s e) data init_anat_state in
      case guarded (accuracy_score lib) (anat_targs st) (anat_preds st) of Inl e \<Rightarrow> Inl e | Inr aa \<Rightarrow>
      (case guarded (f1_score lib) (anat_targs st) (anat_preds st) of Inl e \<Rightarrow> Inl e | Inr af \<Rightarrow>
      (case guarded (accuracy_score lib) (img_targs st) (img_preds st) of Inl e \<Rightarrow> Inl e | Inr ia \<Rightarrow>
      (case guarded (f1_score lib) (img_targs st) (img_preds st) of Inl e \<Rightarrow> Inl e | Inr if1 \<Rightarrow>
         Inr \<lparr>anat_acc = aa, anat_f1 = af, anat_correct = anat_corr st,
              anat_incorrect = anat_wrong st, anat_total = anat_tot st,
              img_acc = ia, img_f1 = if1, img_correct = img_corr st,
              img_incorrect = img_wrong st, img_total = img_tot st\<rparr>))))"

section \<open>Invariants and test scenarios\<close>

definition run_inv :: "run_state \<Rightarrow> nat \<Rightarrow> bool" where
  \<comment> \<open>what holds of the accumulators of \<open>evaluate_run\<close> after \<open>n\<close> records\<close>
  "run_inv st n =
     (set (preds st) \<subseteq> {0, 1} \<and> set (targs st) \<subseteq> {0, 1} \<and>
      length (preds st) = n \<and> length (targs st) = n \<and>
      correct st + incorrect st = n \<and> unsure st \<le> incorrect st)"

definition scenario_1 :: "entry list" where
  \<comment> \<open>a run file of two records, both answered as expected\<close>
  "scenario_1 =
     [\<lparr>file_name = ''slice.png'',
       results_call =
         [\<lparr>question = ''Is the liver above the spleen?'', model_answer = ''1'',
            expected_answer = Some 1, entire_prompt = ''Answer with 1 or 0.'',
            object1_name = None, object2_name = None\<rparr>,
          \<lparr>question = ''Is the liver below the spleen?'', model_answer = ''No'',
            expected_answer = Some 0, entire_prompt = ''Answer with 1 or 0.'',
            object1_name = None, object2_name = None\<rparr>]\<rparr>]"

definition scenario_3_slice :: "string \<Rightarrow> (real \<times> real) option" where
  \<comment> \<open>the centres of one image: the liver at x = 120, the spleen at x = 80\<close>
  "scenario_3_slice k =
     (if k = ''liver'' then Some (120, 60)
      else if k = ''spleen'' then Some (80, 64)
      else None)"

definition scenario_3_centres :: centres where
  "scenario_3_centres f = (if f = ''ct.png'' then Some scenario_3_slice else None)"

definition scenario_3_record :: qa_record where
  "scenario_3_record =
     \<lparr>question = ''Is the liver to the left of the spleen?'', model_answer = ''1'',
      expected_answer = Some 0, entire_prompt = ''Answer with 1 or 0.'',
      object1_name = None, object2_name = None\<rparr>"



definition wrapped_record :: qa_record where
  \<comment> \<open>a record whose question is broken into two lines before the phrase\<close>
  "wrapped_record =
     \<lparr>question = ''Is the liver\<newline>to the left of the spleen?'',
      model_answer = ''1'', expected_answer = Some 0,
      entire_prompt = ''Answer with 1 or 0.'',
      object1_name = Some ''liver'', object2_name = Some ''spleen''\<rparr>"

text \<open>
  The aggregates in the words of the specification: the arithmetic mean, the sample
  standard deviation (zero on fewer than two values), and, for comparison, the
  population standard deviation.
\<close>

definition arithmetic_mean :: "real list \<Rightarrow> real" where
  "arithmetic_mean xs = sum_list xs / real (length xs)"

definition sample_std :: "real list \<Rightarrow> real" where
  "sample_std xs =
     (if length xs < 2 then 0
      else sqrt (sum_list (map (\<lambda>x. (x - arithmetic_mean xs)\<^sup>2) xs) / (real (length xs) - 1)))"

definition population_std :: "real list \<Rightarrow> real" where
  "population_std xs =
     sqrt (sum_list (map (\<lambda>x. (x - arithmetic_mean xs)\<^sup>2) xs) / real (length xs))"

definition three_runs :: "run_metrics list" where
  \<comment> \<open>three runs with the accuracies 0.8, 0.9 and 0.85\<close>
  "three_runs =
     [\<lparr>accuracy = Fin 0.8, f1 = Fin 0.8, correct_count = 16, incorrect_count = 4,
       unsure_count = 0\<rparr>,
      \<lparr>accuracy = Fin 0.9, f1 = Fin 0.9, correct_count = 18, incorrect_count = 2,
       unsure_count = 1\<rparr>,
      \<lparr>accuracy = Fin 0.85, f1 = Fin 0.85, correct_count = 17, incorrect_count = 3,
       unsure_count = 0\<rparr>]"

section \<open>Answers without a token\<close>

definition no_token :: "string \<Rightarrow> bool" where
  \<comment> \<open>the text holds none of \<open>0\<close>, \<open>1\<close>, \<open>yes\<close>, \<open>no\<close>, in whatever case\<close>
  "no_token s =
     (\<not> contains ''0'' (lower s) \<and> \<not> contains ''1'' (lower s) \<and>
      \<not> contains ''yes'' (lower s) \<and> \<not> contains ''no'' (lower s))"

definition no_direction :: "string \<Rightarrow> string \<Rightarrow> bool" where
  \<comment> \<open>the text holds no direction word that matches the question: for every pair
      whose first word is in the question, neither word of the pair is in the text\<close>
  "no_direction q t =
     list_all (\<lambda>(d, opp). contains d (lower q) \<longrightarrow>
                 \<not> contains d (lower t) \<and> \<not> contains opp (lower t)) pairs"

section \<open>Properties of the answer parser\<close>

lemmas char_defs = isspace_def open_punct_def close_punct_def is_term_def
  lower_def lower_char_def is_upper_def

lemmas regex_defs = strip_def digit_at_def yesno_at_def token_at_def
  sdigit_def syesno_def se_token_def

lemma parse_0: "parse_model_answer ''0'' q p = (Some 0, None)"
  by (simp add: parse_model_answer_def regex_defs char_defs)

lemma parse_1: "parse_model_answer ''1'' q p = (Some 1, None)"
  by (simp add: parse_model_answer_def regex_defs char_defs)

lemma parse_paren_1: "parse_model_answer ''(1)'' q p = (Some 1, None)"
  by (simp add: parse_model_answer_def regex_defs char_defs)

lemma parse_quoted_0: "parse_model_answer [CHR 0x27, CHR ''0'', CHR 0x27] q p = (Some 0, None)"
  by (simp add: parse_model_answer_def regex_defs char_defs)

lemma parse_Yes_dot: "parse_model_answer ''Yes.'' q p = (Some 1, None)"
  by (simp add: parse_model_answer_def regex_defs char_defs)

lemma parse_NO: "parse_model_answer ''NO'' q p = (Some 0, None)"
  by (simp add: parse_model_answer_def regex_defs char_defs)

lemma parse_padded_1: "parse_model_answer ''  1  '' q p = (Some 1, None)"
  by (simp add: parse_model_answer_def regex_defs char_defs)

text \<open>
  Claim C1. Whatever the question and the prompt, the answers \<open>0\<close>, \<open>1\<close>, \<open>(1)\<close>,
  \<open>'0'\<close>, \<open>Yes.\<close>, \<open>NO\<close> and \<open>1\<close> between blanks are parsed to the labels
  0, 1, 1, 0, 1, 0, 1, and none of them is unparseable.
\<close>

theorem C1_fixed_answers:
  "parse_model_answer ''0'' q p = (Some 0, None) \<and>
   parse_model_answer ''1'' q p = (Some 1, None) \<and>
   parse_model_answer ''(1)'' q p = (Some 1, None) \<and>
   parse_model_answer [CHR 0x27, CHR ''0'', CHR 0x27] q p = (Some 0, None) \<and>
   parse_model_answer ''Yes.'' q p = (Some 1, None) \<and>
   parse_model_answer ''NO'' q p = (Some 0, None) \<and>
   parse_model_answer ''  1  '' q p = (Some 1, None)"
  using parse_0 parse_1 parse_paren_1 parse_quoted_0 parse_Yes_dot parse_NO parse_padded_1
  by blast

theorem C1_fixed_answers_witness:
  "fst (parse_model_answer ''(1)'' ''Is the liver above the spleen?'' ''Answer with 1 or 0.'') = Some 1 \<and>
   fst (parse_model_answer ''NO'' ''Is the liver above the spleen?'' ''Answer with 1 or 0.'') = Some 0"
  using C1_fixed_answers [of "''Is the liver above the spleen?''" "''Answer with 1 or 0.''"]
  by simp

lemma scan_pairs_label: "scan_pairs ps ql al = Some v \<Longrightarrow> v = 0 \<or> v = 1"
  by (induction ps ql al rule: scan_pairs.induct) (auto split: if_splits)

lemma parse_spatial_relation_label: "parse_spatial_relation q a = Some v \<Longrightarrow> v = 0 \<or> v = 1"
  unfolding parse_spatial_relation_def by (rule scan_pairs_label)

lemma parse_label: "fst (parse_model_answer ans q p) = Some v \<Longrightarrow> v = 0 \<or> v = 1"
  by (auto simp: parse_model_answer_def Let_def split: option.splits if_splits
           dest: parse_spatial_relation_label)

lemma parse_residual:
  "snd (parse_model_answer ans q p) = None \<or>
   snd (parse_model_answer ans q p) = Some (strip_prompt p (strip ans))"
  by (auto simp: parse_model_answer_def Let_def split: option.splits if_splits)

text \<open>
  Claim C5. On every answer, question and prompt the parser returns a pair: the
  label is 0, 1 or none, and the residual text is none or the answer with the
  prompt's lines deleted. The parser is a total function with no error case: none of
  the string operations it is made of can raise on a string.
\<close>

theorem C5_parser_total:
  "(fst (parse_model_answer ans q p) = None \<or>
    fst (parse_model_answer ans q p) = Some 0 \<or>
    fst (parse_model_answer ans q p) = Some 1) \<and>
   (snd (parse_model_answer ans q p) = None \<or>
    snd (parse_model_answer ans q p) = Some (strip_prompt p (strip ans)))"
proof -
  have "fst (parse_model_answer ans q p) = None \<or>
        fst (parse_model_answer ans q p) = Some 0 \<or>
        fst (parse_model_answer ans q p) = Some 1"
  proof (cases "fst (parse_model_answer ans q p)")
    case None
    then show ?thesis by simp
  next
    case (Some v)
    with parse_label [of ans q p v] show ?thesis by auto
  qed
  with parse_residual [of ans q p] show ?thesis by simp
qed

lemma parse_unbalanced:
  "parse_model_answer ''([ maybe'' ''Is it left?'' ''Answer 1 or 0.'' = (None, Some ''([ maybe'')"
  by code_simp

theorem C5_parser_total_witness:
  "parse_model_answer ''([ maybe'' ''Is it left?'' ''Answer 1 or 0.'' = (None, Some ''([ maybe'')"
  using C5_parser_total [of "''([ maybe''" "''Is it left?''" "''Answer 1 or 0.''"]
    parse_unbalanced
  by simp

lemma parse_spatial_relation_unfold:
  "parse_spatial_relation q a =
    (if contains ''above'' (lower q) \<and> contains ''above'' (lower a) then Some 1
     else if contains ''above'' (lower q) \<and> contains ''below'' (lower a) then Some 0
     else if contains ''below'' (lower q) \<and> contains ''below'' (lower a) then Some 1
     else if contains ''below'' (lower q) \<and> contains ''above'' (lower a) then Some 0
     else if contains ''left'' (lower q) \<and> contains ''left'' (lower a) then Some 1
     else if contains ''left'' (lower q) \<and> contains ''right'' (lower a) then Some 0
     else if contains ''right'' (lower q) \<and> contains ''right'' (lower a) then Some 1
     else if contains ''right'' (lower q) \<and> contains ''left'' (lower a) then Some 0
     else None)"
  by (simp add: parse_spatial_relation_def pairs_def)

text \<open>
  Claim C6. The direction fallback goes through the pairs (above, below),
  (below, above), (left, right), (right, left) in this order, on the question and the
  answer in lower case. The first pair whose first word occurs in the question and
  one of whose words occurs in the answer decides: 1 when the first word occurs in
  the answer, else 0. A pair whose first word is not in the question, or neither word
  of which is in the answer, is passed over. When no first word occurs in the
  question the result is none.
\<close>

theorem C6_spatial_fallback:
  "parse_spatial_relation q a =
    (if contains ''above'' (lower q) \<and> contains ''above'' (lower a) then Some 1
     else if contains ''above'' (lower q) \<and> contains ''below'' (lower a) then Some 0
     else if contains ''below'' (lower q) \<and> contains ''below'' (lower a) then Some 1
     else if contains ''below'' (lower q) \<and> contains ''above'' (lower a) then Some 0
     else if contains ''left'' (lower q) \<and> contains ''left'' (lower a) then Some 1
     else if contains ''left'' (lower q) \<and> contains ''right'' (lower a) then Some 0
     else if contains ''right'' (lower q) \<and> contains ''right'' (lower a) then Some 1
     else if contains ''right'' (lower q) \<and> contains ''left'' (lower a) then Some 0
     else None) \<and>
   (\<not> contains ''above'' (lower q) \<and> \<not> contains ''below'' (lower q) \<and>
    \<not> contains ''left'' (lower q) \<and> \<not> contains ''right'' (lower q)
    \<longrightarrow> parse_spatial_relation q a = None)"
  using parse_spatial_relation_unfold [of q a] by simp

theorem C6_spatial_fallback_witness:
  "parse_spatial_relation ''Is it ABOVE and left?'' ''Below, on the left.'' = Some 0 \<and>
   parse_spatial_relation ''Is it big?'' ''left'' = None"
proof -
  have q1: "lower ''Is it ABOVE and left?'' = ''is it above and left?''"
    by (simp add: lower_def lower_char_def is_upper_def)
  have a1: "lower ''Below, on the left.'' = ''below, on the left.''"
    by (simp add: lower_def lower_char_def is_upper_def)
  have q2: "lower ''Is it big?'' = ''is it big?''"
    by (simp add: lower_def lower_char_def is_upper_def)
  have "parse_spatial_relation ''Is it ABOVE and left?'' ''Below, on the left.'' = Some 0"
    using C6_spatial_fallback [of "''Is it ABOVE and left?''" "''Below, on the left.''"]
    by (simp add: q1 a1)
  moreover have "parse_spatial_relation ''Is it big?'' ''left'' = None"
    using C6_spatial_fallback [of "''Is it big?''" "''left''"]
    by (simp add: q2)
  ultimately show ?thesis by simp
qed

section \<open>Unparseable answers\<close>

lemma contains_sublist: "contains w s = sublist w s"
  by (induction s) (simp_all add: sublist_Cons_right)

lemma sublist_strip: "sublist (strip s) s"
proof -
  have "sublist (rev (dropWhile isspace (rev (dropWhile isspace s)))) (dropWhile isspace s)"
    by (simp add: sublist_rev_left)
  also have "sublist (dropWhile isspace s) s" by simp
  finally show ?thesis by (simp only: strip_def)
qed

lemma contains_part:
  assumes "sublist t s" and "contains w (lower t)"
  shows "contains w (lower s)"
proof -
  from assms(1) have "sublist (lower t) (lower s)"
    unfolding lower_def by (rule map_mono_sublist)
  with assms(2) show ?thesis
    unfolding contains_sublist by (rule sublist_order.order_trans)
qed

lemma ci_prefix_lower: "ci_prefix w s \<Longrightarrow> prefix w (lower s)"
  by (induction w s rule: ci_prefix.induct) (simp_all add: lower_def split: if_splits)

lemma ci_prefix_contains: "ci_prefix w s \<Longrightarrow> contains w (lower s)"
  unfolding contains_sublist by (rule prefix_imp_sublist [OF ci_prefix_lower])

lemma contains_char: "contains [c] s = (c \<in> set s)"
  by (induction s) auto

lemma no_token_part: "sublist t s \<Longrightarrow> no_token s \<Longrightarrow> no_token t"
  unfolding no_token_def using contains_part by blast

lemma yesno_at_contains:
  "yesno_at s = Some (tok, rest) \<Longrightarrow> (tok = ''yes'' \<or> tok = ''no'') \<and> contains tok (lower s)"
  by (auto simp: yesno_at_def split: if_splits intro: ci_prefix_contains)

lemma token_at_contains:
  "token_at s = Some (tok, rest) \<Longrightarrow>
   (tok = ''0'' \<or> tok = ''1'' \<or> tok = ''yes'' \<or> tok = ''no'') \<and> contains tok (lower s)"
  unfolding token_at_def
  by (auto split: if_splits intro: ci_prefix_contains dest: yesno_at_contains)

lemma prefix_digit_ci: "prefix [d] s \<Longrightarrow> d = CHR ''0'' \<or> d = CHR ''1'' \<Longrightarrow> ci_prefix [d] s"
  by (cases s) (auto simp: lower_char_def is_upper_def)

lemma digit_at_contains:
  "digit_at s = Some (d, rest) \<Longrightarrow> (d = ''0'' \<or> d = ''1'') \<and> contains d (lower s)"
  unfolding digit_at_def
  by (auto split: if_splits intro!: ci_prefix_contains prefix_digit_ci)

lemma no_token_digit_at: "no_token s \<Longrightarrow> digit_at s = None"
proof (rule ccontr)
  assume nt: "no_token s" and "digit_at s \<noteq> None"
  then obtain d rest where "digit_at s = Some (d, rest)" by auto
  from digit_at_contains [OF this] nt show False by (auto simp: no_token_def)
qed

lemma no_token_yesno_at: "no_token s \<Longrightarrow> yesno_at s = None"
proof (rule ccontr)
  assume nt: "no_token s" and "yesno_at s \<noteq> None"
  then obtain d rest where "yesno_at s = Some (d, rest)" by auto
  from yesno_at_contains [OF this] nt show False by (auto simp: no_token_def)
qed

lemma no_token_token_at: "no_token s \<Longrightarrow> token_at s = None"
proof (rule ccontr)
  assume nt: "no_token s" and "token_at s \<noteq> None"
  then obtain d rest where "token_at s = Some (d, rest)" by auto
  from token_at_contains [OF this] nt show False by (auto simp: no_token_def)
qed

lemma sublist_open_strip: "sublist (dropWhile open_punct (strip s)) s"
proof -
  have "sublist (dropWhile open_punct (strip s)) (strip s)" by simp
  also have "sublist (strip s) s" by (rule sublist_strip)
  finally show ?thesis .
qed

lemma no_token_sdigit: "no_token s \<Longrightarrow> sdigit s = None"
  using no_token_digit_at [OF no_token_part [OF sublist_open_strip]]
  by (simp add: sdigit_def)

lemma no_token_syesno: "no_token s \<Longrightarrow> syesno s = None"
  using no_token_yesno_at [OF no_token_part [OF sublist_open_strip]]
  by (simp add: syesno_def)

lemma no_token_search_end: "no_token t \<Longrightarrow> search_end_token t = None"
proof (induction t)
  case Nil
  then show ?case by simp
next
  case (Cons c cs)
  have "sublist cs (c # cs)" by (simp add: sublist_Cons_right)
  from no_token_part [OF this Cons.prems] have "no_token cs" .
  with Cons.IH no_token_token_at [OF Cons.prems] show ?case by simp
qed

lemma no_token_se_token: "no_token s \<Longrightarrow> se_token s = None"
  using no_token_token_at [OF no_token_part [OF sublist_open_strip]]
    no_token_search_end [OF no_token_part [OF sublist_strip]]
  by (simp add: se_token_def Let_def)

lemma scan_pairs_None:
  "list_all (\<lambda>(d, opp). contains d ql \<longrightarrow> \<not> contains d al \<and> \<not> contains opp al) ps \<Longrightarrow>
   scan_pairs ps ql al = None"
  by (induction ps ql al rule: scan_pairs.induct) simp_all

lemma no_direction_None: "no_direction q t \<Longrightarrow> parse_spatial_relation q t = None"
  unfolding no_direction_def parse_spatial_relation_def by (rule scan_pairs_None)

lemma no_direction_part:
  assumes "sublist t' t" and "no_direction q t"
  shows "no_direction q t'"
  using assms(2) contains_part [OF assms(1)]
  unfolding no_direction_def list_all_iff by blast

lemma keyword_at_drop: "keyword_at s = Some r \<Longrightarrow> set r \<subseteq> set s"
  by (auto simp: keyword_at_def split: if_splits dest: in_set_dropD)

lemma keyword_digit_at_set:
  assumes "keyword_digit_at s = Some g"
  shows "g \<in> set s \<and> (g = CHR ''1'' \<or> g = CHR ''0'')"
proof -
  from assms obtain r where r: "keyword_at s = Some r"
    by (auto simp: keyword_digit_at_def split: option.splits)
  define r1 where "r1 = (if ci_prefix '' is'' r then drop 3 r
                     else if ci_prefix '':'' r then drop 1 r else r)"
  have s1: "set r1 \<subseteq> set r"
    unfolding r1_def by (auto dest: in_set_dropD)
  from assms r obtain rest where d: "dropWhile isspace r1 = g # rest"
    and g: "g = CHR ''1'' \<or> g = CHR ''0''"
    unfolding keyword_digit_at_def r1_def Let_def
    by (auto split: list.splits if_splits)
  from d have "g \<in> set (dropWhile isspace r1)" by simp
  then have "g \<in> set r1" by (rule set_dropWhileD)
  with s1 keyword_at_drop [OF r] g show ?thesis by blast
qed

lemma search_keyword_digit_set:
  "search_keyword_digit s = Some g \<Longrightarrow> g \<in> set s \<and> (g = CHR ''1'' \<or> g = CHR ''0'')"
proof (induction s)
  case Nil
  then show ?case by simp
next
  case (Cons c cs)
  show ?case
  proof (cases "keyword_digit_at (c # cs)")
    case None
    with Cons show ?thesis by simp
  next
    case (Some h)
    with Cons.prems have "h = g" by simp
    with keyword_digit_at_set [OF Some] show ?thesis by simp
  qed
qed

lemma set_str_remove: "set (str_remove old s) \<subseteq> set s"
proof (induction old s rule: str_remove.induct)
  case (1 old)
  then show ?case by simp
next
  case (2 old c cs)
  show ?case
  proof (cases "old \<noteq> [] \<and> prefix old (c # cs)")
    case True
    with 2 have "set (str_remove old (drop (length old) (c # cs))) \<subseteq> set (drop (length old) (c # cs))"
      by blast
    also have "\<dots> \<subseteq> set (c # cs)" by (rule set_drop_subset)
    finally show ?thesis using True by simp
  next
    case False
    with 2 have "set (str_remove old cs) \<subseteq> set cs" by blast
    with False show ?thesis by auto
  qed
qed

lemma set_fold_remove:
  "set (fold (\<lambda>l cleaned. let ls = strip l in if ls \<noteq> [] then str_remove ls cleaned else cleaned)
          ls t) \<subseteq> set t"
proof (induction ls arbitrary: t)
  case Nil
  then show ?case by simp
next
  case (Cons l ls)
  show ?case
  proof (cases "strip l \<noteq> []")
    case True
    have "set (fold (\<lambda>l cleaned. let ls = strip l in if ls \<noteq> [] then str_remove ls cleaned else cleaned)
          ls (str_remove (strip l) t)) \<subseteq> set (str_remove (strip l) t)" by (rule Cons.IH)
    also have "\<dots> \<subseteq> set t" by (rule set_str_remove)
    finally show ?thesis using True by (simp add: Let_def)
  next
    case False
    with Cons.IH [of t] show ?thesis by (simp add: Let_def)
  qed
qed

lemma set_strip_prompt: "set (strip_prompt p t) \<subseteq> set t"
  unfolding strip_prompt_def by (rule set_fold_remove)

lemma no_token_digits: "no_token s \<Longrightarrow> CHR ''0'' \<notin> set s \<and> CHR ''1'' \<notin> set s"
proof -
  assume nt: "no_token s"
  have l: "lower_char CHR ''0'' = CHR ''0''" "lower_char CHR ''1'' = CHR ''1''"
    by (simp_all add: lower_char_def is_upper_def)
  { fix c assume "c \<in> set s" and "lower_char c = c"
    then have "c \<in> set (lower s)" unfolding lower_def by force
    then have "contains [c] (lower s)" by (simp add: contains_char) }
  with l nt show ?thesis unfolding no_token_def by blast
qed

lemma first_clause_part: "first_clause t = Some m \<Longrightarrow> sublist m t"
proof -
  assume a: "first_clause t = Some m"
  let ?r = "dropWhile is_term t"
  let ?Q = "\<lambda>c. \<not> is_term c"
  from a have m: "m = takeWhile ?Q ?r @ take 1 (dropWhile ?Q ?r)"
    by (simp add: first_clause_def Let_def split: if_splits)
  have "takeWhile ?Q ?r @ take 1 (dropWhile ?Q ?r) @ drop 1 (dropWhile ?Q ?r) = ?r"
    by simp
  then have "prefix m ?r" unfolding m by (metis append.assoc prefixI)
  then have "sublist m ?r" by (rule prefix_imp_sublist)
  also have "sublist ?r t" by simp
  finally show ?thesis .
qed

lemma parse_Reno: "parse_model_answer ''I am in Reno'' q p = (Some 0, None)"
  by (simp add: parse_model_answer_def regex_defs char_defs)

text \<open>
  The tokens are sought as substrings: the answer \<open>I am in Reno\<close> ends in \<open>no\<close> and
  is parsed to 0 (\<open>parse_Reno\<close>). So an answer without a token is one in which
  none of the four occurs anywhere.

  Claim C4, as stated, fails: deleting the prompt's lines from an answer can bring a
  direction word together. The answer below has no token and no direction word, and
  it is parsed to the label 1 once the prompt line \<open>X\<close> is deleted from it.
\<close>

theorem C4_stripping_makes_direction:
  "no_token ''leXft'' \<and> no_direction ''Is it left?'' ''leXft'' \<and>
   \<not> contains ''left'' (lower ''leXft'') \<and> \<not> contains ''right'' (lower ''leXft'') \<and>
   parse_model_answer ''leXft'' ''Is it left?'' ''X'' = (Some 1, Some ''left'')"
  by code_simp

text \<open>
  Claim C4, amended. An answer that holds none of \<open>0\<close>, \<open>1\<close>, \<open>yes\<close>, \<open>no\<close> and
  no direction word matching the question, and that still holds no such direction
  word after the prompt's lines are deleted from it, is unparseable: the label is
  none, and the residual text is the answer with the prompt's lines deleted.
\<close>

theorem C4_no_token_unparseable:
  assumes "no_token s" and "no_direction q s" and "no_direction q (strip_prompt p (strip s))"
  shows "parse_model_answer s q p = (None, Some (strip_prompt p (strip s)))"
proof -
  let ?txt = "strip s"
  let ?cleaned = "strip_prompt p ?txt"
  have nt: "no_token ?txt" using sublist_strip assms(1) by (rule no_token_part)
  have a: "sdigit ?txt = None" using nt by (rule no_token_sdigit)
  have b: "syesno ?txt = None" using nt by (rule no_token_syesno)
  have c: "se_token ?txt = None" using nt by (rule no_token_se_token)
  have "no_direction q ?txt" using sublist_strip assms(2) by (rule no_direction_part)
  then have d: "parse_spatial_relation q ?txt = None" by (rule no_direction_None)
  have e: "(case first_clause ?cleaned of Some m \<Rightarrow> parse_spatial_relation q (strip m)
            | None \<Rightarrow> None) = None"
  proof (cases "first_clause ?cleaned")
    case None
    then show ?thesis by simp
  next
    case (Some m)
    have "sublist (strip m) m" by (rule sublist_strip)
    also have "sublist m ?cleaned" using Some by (rule first_clause_part)
    finally have "no_direction q (strip m)" using assms(3) by (rule no_direction_part)
    then have "parse_spatial_relation q (strip m) = None" by (rule no_direction_None)
    with Some show ?thesis by simp
  qed
  have f: "search_keyword_digit ?cleaned = None"
  proof (rule ccontr)
    assume "search_keyword_digit ?cleaned \<noteq> None"
    then obtain g where "search_keyword_digit ?cleaned = Some g" by auto
    from search_keyword_digit_set [OF this]
    have g: "g \<in> set ?cleaned" "g = CHR ''1'' \<or> g = CHR ''0''" by simp_all
    from g(1) set_strip_prompt [of p ?txt] have "g \<in> set ?txt" by blast
    with g(2) no_token_digits [OF nt] show False by blast
  qed
  show ?thesis
    unfolding parse_model_answer_def Let_def a b c d e f by simp
qed

lemma hard_to_tell:
  "no_token ''It is hard to tell.'' \<and>
   no_direction ''Is the liver above the spleen?'' ''It is hard to tell.'' \<and>
   strip_prompt ''Answer with 1 or 0.'' (strip ''It is hard to tell.'') = ''It is hard to tell.''"
  by code_simp

theorem C4_no_token_unparseable_witness:
  "parse_model_answer ''It is hard to tell.'' ''Is the liver above the spleen?''
     ''Answer with 1 or 0.'' = (None, Some ''It is hard to tell.'')"
proof -
  from hard_to_tell have 1: "no_token ''It is hard to tell.''"
    and 2: "no_direction ''Is the liver above the spleen?'' ''It is hard to tell.''"
    and 3: "strip_prompt ''Answer with 1 or 0.'' (strip ''It is hard to tell.'') = ''It is hard to tell.''"
    by blast+
  from 2 3 have 4: "no_direction ''Is the liver above the spleen?''
      (strip_prompt ''Answer with 1 or 0.'' (strip ''It is hard to tell.''))" by (simp only:)
  from C4_no_token_unparseable [OF 1 2 4] show ?thesis unfolding 3 .
qed

section \<open>Properties of the image evaluator\<close>


lemma eval_call_inv:
  assumes "expected_answer c = Some 0 \<or> expected_answer c = Some 1" and "run_inv st n"
  shows "\<exists>st'. eval_call st c = Inr st' \<and> run_inv st' (Suc n)"
proof -
  from assms(1) obtain e where e: "expected_answer c = Some e" "e = 0 \<or> e = 1" by auto
  show ?thesis
  proof (cases "fst (parse_model_answer (model_answer c) (question c) (entire_prompt c))")
    case None
    with e assms(2) show ?thesis
      by (auto simp: eval_call_def run_inv_def Let_def)
  next
    case (Some v)
    with parse_label [of "model_answer c" "question c" "entire_prompt c" v]
    have "v = 0 \<or> v = 1" by simp
    with Some e assms(2) show ?thesis
      by (auto simp: eval_call_def run_inv_def Let_def)
  qed
qed

lemma eval_calls_inv:
  assumes "\<forall>c\<in>set cs. expected_answer c = Some 0 \<or> expected_answer c = Some 1" and "run_inv st n"
  shows "\<exists>st'. eval_calls st cs = Inr st' \<and> run_inv st' (n + length cs)"
  using assms
proof (induction cs arbitrary: st n)
  case Nil
  then show ?case by simp
next
  case (Cons c cs)
  from Cons.prems obtain st1 where st1: "eval_call st c = Inr st1" "run_inv st1 (Suc n)"
    using eval_call_inv [of c st n] by auto
  from Cons.IH [of st1 "Suc n"] Cons.prems(1) st1(2)
  obtain st' where "eval_calls st1 cs = Inr st'" "run_inv st' (Suc n + length cs)" by auto
  with st1(1) show ?case by simp
qed

lemma eval_entries_inv:
  assumes "\<forall>e\<in>set es. \<forall>c\<in>set (results_call e). expected_answer c = Some 0 \<or> expected_answer c = Some 1"
    and "run_inv st n"
  shows "\<exists>st'. eval_entries st es = Inr st' \<and>
               run_inv st' (n + length (concat (map results_call es)))"
  using assms
proof (induction es arbitrary: st n)
  case Nil
  then show ?case by simp
next
  case (Cons e es)
  from Cons.prems obtain st1 where
    st1: "eval_calls st (results_call e) = Inr st1" "run_inv st1 (n + length (results_call e))"
    using eval_calls_inv [of "results_call e" st n] by auto
  from Cons.IH [of st1 "n + length (results_call e)"] Cons.prems(1) st1(2)
  obtain st' where "eval_entries st1 es = Inr st'"
    "run_inv st' (n + length (results_call e) + length (concat (map results_call es)))" by auto
  with st1(1) show ?case by (simp add: add.assoc)
qed

lemma binary_labels:
  assumes "set xs \<subseteq> {0, 1::int}"
  shows "length (remdups xs) \<le> 2 \<and> (length (remdups xs) = 2 \<longrightarrow> 1 \<in> set xs)"
proof -
  have c: "card (set xs) \<le> card {0, 1::int}"
    using assms by (intro card_mono) auto
  have l: "length (remdups xs) = card (set xs)"
    by (simp add: length_remdups_card_conv)
  have "card (set xs) = 2 \<Longrightarrow> set xs = {0, 1}"
    using assms card_subset_eq [of "{0, 1::int}" "set xs"] by simp
  with c l show ?thesis by auto
qed

lemma f1_score_binary:
  assumes "set ts \<subseteq> {0, 1}" "set ps \<subseteq> {0, 1}" "length ts = length ps" "ts \<noteq> []"
  shows "\<exists>f. f1_score lib ts ps = Inr (Fin f)"
proof -
  have "set (ts @ ps) \<subseteq> {0, 1}" using assms by simp
  from binary_labels [OF this] assms(3) assms(4) show ?thesis
    by (auto simp: f1_score_def Let_def)
qed

lemma accuracy_score_total:
  assumes "length ts = length ps" "ts \<noteq> []"
  shows "\<exists>a. accuracy_score lib ts ps = Inr a"
  using assms by (simp add: accuracy_score_def)

lemma evaluate_run_counts:
  assumes "eval_entries init_state data = Inr st" and "evaluate_run lib data = Inr m"
  shows "correct_count m = correct st \<and> incorrect_count m = incorrect st \<and>
         unsure_count m = unsure st"
  using assms by (auto simp: evaluate_run_def split: sum.splits)

text \<open>
  Claim C10. When every record of a run file expects 0 or 1, the loop of the image
  evaluator ends without an error, every predicted and every target label is 0 or 1,
  there is one of each per record, the correct and incorrect counts add up to the
  number of records, and the unsure count is at most the incorrect count. The
  metrics that \<open>evaluate_run\<close> returns carry these counts, and it does return them
  when the run file has a record.
\<close>

theorem C10_run_invariants:
  assumes "\<forall>e\<in>set data. \<forall>c\<in>set (results_call e).
             expected_answer c = Some 0 \<or> expected_answer c = Some 1"
  shows "\<exists>st. eval_entries init_state data = Inr st \<and>
           set (preds st) \<subseteq> {0, 1} \<and> set (targs st) \<subseteq> {0, 1} \<and>
           length (preds st) = length (concat (map results_call data)) \<and>
           length (targs st) = length (concat (map results_call data)) \<and>
           correct st + incorrect st = length (concat (map results_call data)) \<and>
           unsure st \<le> incorrect st \<and>
           (\<forall>m. evaluate_run lib data = Inr m \<longrightarrow>
                correct_count m + incorrect_count m = length (concat (map results_call data)) \<and>
                unsure_count m \<le> incorrect_count m) \<and>
           (concat (map results_call data) \<noteq> [] \<longrightarrow>
              (\<exists>m. evaluate_run lib data = Inr m \<and>
                   correct_count m + incorrect_count m = length (concat (map results_call data)) \<and>
                   unsure_count m \<le> incorrect_count m))"
proof -
  have "run_inv init_state 0" by (simp add: run_inv_def init_state_def)
  from eval_entries_inv [OF assms this] obtain st where
    st: "eval_entries init_state data = Inr st"
    and inv: "run_inv st (length (concat (map results_call data)))" by auto
  from inv have len: "length (targs st) = length (preds st)" by (simp add: run_inv_def)
  have counts: "correct_count m + incorrect_count m = length (concat (map results_call data)) \<and>
                unsure_count m \<le> incorrect_count m"
    if "evaluate_run lib data = Inr m" for m
    using evaluate_run_counts [OF st that] inv by (simp add: run_inv_def)
  have returns: "\<exists>m. evaluate_run lib data = Inr m"
    if ne: "concat (map results_call data) \<noteq> []"
  proof -
    from inv ne have t: "targs st \<noteq> []" by (auto simp: run_inv_def)
    from accuracy_score_total [OF len t]
    obtain a where a: "accuracy_score lib (targs st) (preds st) = Inr a" ..
    from inv len t f1_score_binary [of "targs st" "preds st" lib]
    obtain f where f: "f1_score lib (targs st) (preds st) = Inr (Fin f)"
      by (auto simp: run_inv_def)
    from st a f show ?thesis by (simp add: evaluate_run_def)
  qed
  from st inv counts returns show ?thesis
    unfolding run_inv_def by blast
qed

lemma parse_No: "parse_model_answer ''No'' q p = (Some 0, None)"
  by (simp add: parse_model_answer_def regex_defs char_defs)

lemma scenario_1_metrics:
  "evaluate_run lib scenario_1 =
     Inr \<lparr>accuracy = Fin 1, f1 = Fin 1, correct_count = 2, incorrect_count = 0,
          unsure_count = 0\<rparr>"
  by (simp add: scenario_1_def evaluate_run_def eval_call_def init_state_def parse_1 parse_No
      accuracy_score_def f1_score_def count_pairs_def Let_def)

theorem C10_run_invariants_witness:
  "\<exists>st m. eval_entries init_state scenario_1 = Inr st \<and>
     evaluate_run strict_library scenario_1 = Inr m \<and>
     set (preds st) \<subseteq> {0, 1} \<and> set (targs st) \<subseteq> {0, 1} \<and>
     length (preds st) = 2 \<and> length (targs st) = 2 \<and>
     correct st + incorrect st = 2 \<and> unsure st \<le> incorrect st \<and>
     correct_count m + incorrect_count m = 2 \<and> unsure_count m \<le> incorrect_count m"
proof -
  have h: "\<forall>e\<in>set scenario_1. \<forall>c\<in>set (results_call e).
             expected_answer c = Some 0 \<or> expected_answer c = Some 1"
    by (simp add: scenario_1_def)
  have l: "length (concat (map results_call scenario_1)) = 2"
    by (simp add: scenario_1_def)
  have n: "concat (map results_call scenario_1) \<noteq> []"
    by (simp add: scenario_1_def)
  from C10_run_invariants [OF h, of strict_library] n show ?thesis
    unfolding l by blast
qed

section \<open>Aggregation\<close>

lemma fin_values_Fin: "fin_values (map Fin xs) = Some xs"
  by (induction xs) (simp_all add: fin_values_def)

lemma mean_Fin: "xs \<noteq> [] \<Longrightarrow> mean (map Fin xs) = Inr (Fin (arithmetic_mean xs))"
  by (simp add: mean_def fin_values_Fin arithmetic_mean_def)

lemma safe_stdev_Fin: "safe_stdev lib (map Fin xs) = Inr (Fin (sample_std xs))"
proof (cases "length xs < 2")
  case True
  then show ?thesis by (simp add: safe_stdev_def sample_std_def)
next
  case False
  then have "real (length xs - 1) = real (length xs) - 1" by simp
  with False show ?thesis
    by (simp add: safe_stdev_def stdev_def sample_std_def fin_values_Fin arithmetic_mean_def)
qed

lemma aggregate_Fin:
  assumes "rms \<noteq> []" and "map accuracy rms = map Fin accs" and "map f1 rms = map Fin f1s"
  shows "aggregate lib rms =
           Inr \<lparr>accuracy_mean = Fin (arithmetic_mean accs), accuracy_std = Fin (sample_std accs),
                f1_mean = Fin (arithmetic_mean f1s), f1_std = Fin (sample_std f1s)\<rparr>"
proof -
  from assms have "accs \<noteq> []" "f1s \<noteq> []" by auto
  then show ?thesis
    unfolding aggregate_def Let_def assms(2) assms(3)
    by (simp add: mean_Fin safe_stdev_Fin)
qed

lemma mean_example: "arithmetic_mean [0.8, 0.9, 0.85] = 0.85"
  by (simp add: arithmetic_mean_def)

lemma sqrt_example: "sqrt (1 / 400) = 1 / 20"
  by (rule real_sqrt_unique) (simp_all add: power2_eq_square)

lemma std_example: "sample_std [0.8, 0.9, 0.85] = 0.05"
proof -
  have "sample_std [0.8, 0.9, 0.85] = sqrt (1 / 400)"
    by (simp add: sample_std_def arithmetic_mean_def power2_eq_square)
  also have "\<dots> = 1 / 20" by (rule sqrt_example)
  finally show ?thesis by simp
qed

lemma population_std_example: "population_std [0.8, 0.9, 0.85] \<noteq> 0.05"
proof
  assume a: "population_std [0.8, 0.9, 0.85] = 0.05"
  have "population_std [0.8, 0.9, 0.85] = sqrt (1 / 600)"
    by (simp add: population_std_def arithmetic_mean_def power2_eq_square)
  with a have "sqrt (1 / 600) = 1 / 20" by simp
  then have "(sqrt (1 / 600))\<^sup>2 = (1 / 20)\<^sup>2" by (simp only:)
  then show False by (simp add: power2_eq_square)
qed

text \<open>
  Claim C8. For a non-empty list of run metrics whose accuracies and F1 scores are
  numbers, the aggregate holds the arithmetic mean and the sample standard deviation
  of the accuracies and of the F1 scores; the deviation is 0 on fewer than two runs.
  The accuracies 0.8, 0.9, 0.85 have mean 0.85 and sample standard deviation 0.05,
  which is not their population standard deviation.
\<close>

theorem C8_aggregate_mean_std:
  assumes "rms \<noteq> []" and "map accuracy rms = map Fin accs" and "map f1 rms = map Fin f1s"
  shows "aggregate lib rms =
           Inr \<lparr>accuracy_mean = Fin (arithmetic_mean accs), accuracy_std = Fin (sample_std accs),
                f1_mean = Fin (arithmetic_mean f1s), f1_std = Fin (sample_std f1s)\<rparr> \<and>
         (length accs < 2 \<longrightarrow> sample_std accs = 0) \<and>
         (accs = [0.8, 0.9, 0.85] \<longrightarrow>
            arithmetic_mean accs = 0.85 \<and> sample_std accs = 0.05 \<and>
            population_std accs \<noteq> 0.05)"
  using aggregate_Fin [OF assms] mean_example std_example population_std_example
  by (simp add: sample_std_def)


theorem C8_aggregate_mean_std_witness:
  "aggregate strict_library three_runs =
     Inr \<lparr>accuracy_mean = Fin 0.85, accuracy_std = Fin 0.05,
          f1_mean = Fin 0.85, f1_std = Fin 0.05\<rparr>"
proof -
  have n: "three_runs \<noteq> []" by (simp add: three_runs_def)
  have a: "map accuracy three_runs = map Fin [0.8, 0.9, 0.85]" by (simp add: three_runs_def)
  have f: "map f1 three_runs = map Fin [0.8, 0.9, 0.85]" by (simp add: three_runs_def)
  from C8_aggregate_mean_std [OF n a f, of strict_library]
  have "aggregate strict_library three_runs =
           Inr \<lparr>accuracy_mean = Fin (arithmetic_mean [0.8, 0.9, 0.85]),
                accuracy_std = Fin (sample_std [0.8, 0.9, 0.85]),
                f1_mean = Fin (arithmetic_mean [0.8, 0.9, 0.85]),
                f1_std = Fin (sample_std [0.8, 0.9, 0.85])\<rparr>"
    by (rule conjunct1)
  then show ?thesis unfolding mean_example std_example .
qed

section \<open>Properties of the anatomy evaluator\<close>

lemma split_aux_Nil: "split_aux cur s = [] \<Longrightarrow> cur = [] \<and> list_all isspace s"
proof (induction s arbitrary: cur)
  case Nil
  then show ?case by (simp split: if_splits)
next
  case (Cons c cs)
  show ?case
  proof (cases "isspace c")
    case True
    with Cons.prems have 1: "cur = []" and 2: "split_aux [] cs = []"
      by (simp_all split: if_splits)
    from Cons.IH [OF 2] True 1 show ?thesis by simp
  next
    case False
    with Cons.prems have "split_aux (cur @ [c]) cs = []" by simp
    from Cons.IH [OF this] show ?thesis by simp
  qed
qed

lemma dropWhile_all: "list_all P (dropWhile P ys) \<Longrightarrow> dropWhile P ys = []"
proof (cases "dropWhile P ys")
  case Nil
  then show ?thesis by simp
next
  case (Cons a as)
  assume all: "list_all P (dropWhile P ys)"
  have "dropWhile P ys \<noteq> []" using Cons by simp
  then have "\<not> P (hd (dropWhile P ys))" by (rule hd_dropWhile)
  with Cons all show ?thesis by simp
qed

lemma strip_all_space: "list_all isspace (strip s) \<Longrightarrow> strip s = []"
proof -
  assume "list_all isspace (strip s)"
  then have "list_all isspace (dropWhile isspace (rev (dropWhile isspace s)))"
    unfolding strip_def list_all_iff by (simp only: set_rev)
  then have "dropWhile isspace (rev (dropWhile isspace s)) = []"
    by (rule dropWhile_all)
  then show ?thesis unfolding strip_def by (simp only: rev.simps)
qed

lemma canon_name_no_words: "split (strip (lower raw)) = [] \<Longrightarrow> canon_name raw = []"
proof -
  assume a: "split (strip (lower raw)) = []"
  then have "split_aux [] (strip (lower raw)) = []" by (simp only: split_def)
  then have "list_all isspace (strip (lower raw))"
    using split_aux_Nil [of "[]" "strip (lower raw)"] by blast
  then have "strip (lower raw) = []" by (rule strip_all_space)
  then show ?thesis using a by (simp add: canon_name_def)
qed

lemma canon_left_kidney: "canon_name ''left kidney'' = ''kidney_left''"
  by (simp add: canon_name_def split_def strip_def char_defs)

lemma canon_kidney_left: "canon_name ''kidney_left'' = ''kidney_left''"
  by (simp add: canon_name_def split_def strip_def char_defs)

text \<open>
  Claim C9. \<open>canon_name\<close> puts the name in lower case, strips it and splits it at
  white space. With no word the result is empty; when the first word is \<open>left\<close> or
  \<open>right\<close> the other words are joined by underscores and the side is appended after
  an underscore; otherwise all words are joined by underscores. So \<open>left kidney\<close>
  becomes \<open>kidney_left\<close>, and \<open>kidney_left\<close>, one word that is not a side, stays.
\<close>

theorem C9_canon_name:
  "canon_name raw =
     (case split (strip (lower raw)) of
        [] \<Rightarrow> []
      | w # rest \<Rightarrow>
          if w = ''left'' \<or> w = ''right'' then join ''_'' rest @ ''_'' @ w
          else join ''_'' (w # rest)) \<and>
   canon_name ''left kidney'' = ''kidney_left'' \<and>
   canon_name ''kidney_left'' = ''kidney_left''"
proof -
  have "canon_name raw =
     (case split (strip (lower raw)) of
        [] \<Rightarrow> []
      | w # rest \<Rightarrow>
          if w = ''left'' \<or> w = ''right'' then join ''_'' rest @ ''_'' @ w
          else join ''_'' (w # rest))"
  proof (cases "split (strip (lower raw))")
    case Nil
    then show ?thesis by (simp add: canon_name_no_words)
  next
    case (Cons w rest)
    then show ?thesis by (simp add: canon_name_def)
  qed
  then show ?thesis using canon_left_kidney canon_kidney_left by blast
qed

lemma split_right_adrenal:
  "split (strip (lower '' Right  Adrenal Gland'')) = [''right'', ''adrenal'', ''gland'']"
  by (simp add: split_def strip_def char_defs)

theorem C9_canon_name_witness:
  "canon_name '' Right  Adrenal Gland'' = ''adrenal_gland_right'' \<and>
   canon_name ''left kidney'' \<noteq> ''left kidney''"
  using C9_canon_name [of "'' Right  Adrenal Gland''"] split_right_adrenal
  by simp

lemma canon_liver: "canon_name ''liver'' = ''liver''"
  by (simp add: canon_name_def split_def strip_def char_defs)

lemma canon_spleen: "canon_name ''spleen'' = ''spleen''"
  by (simp add: canon_name_def split_def strip_def char_defs)

lemma wrapped_lower:
  "lower ''Is the liver\<newline>to the left of the spleen?'' =
   ''is the liver\<newline>to the left of the spleen?''"
  by (simp add: char_defs)

text \<open>
  Claim C3, as stated, fails on a question that has the phrase \<open>to the left of\<close>
  without a blank on each side of it: here the phrase starts a line. Object 1 lies at
  the greater x, and the derived label is 0.
\<close>

theorem C3_phrase_without_spaces:
  "contains ''to the left of'' (question wrapped_record) \<and>
   contains ''left'' (lower (question wrapped_record)) \<and>
   resolve_objects wrapped_record = (Some ''liver'', Some ''spleen'') \<and>
   scenario_3_centres ''ct.png'' \<noteq> None \<and>
   (120::real) > 80 \<and>
   anatomy_truth scenario_3_centres ''ct.png'' wrapped_record = Some 0"
proof -
  have q: "question wrapped_record = ''Is the liver\<newline>to the left of the spleen?''"
    by (simp add: wrapped_record_def)
  have 1: "contains ''to the left of'' ''Is the liver\<newline>to the left of the spleen?''"
    by simp
  have 2: "contains ''left'' ''is the liver\<newline>to the left of the spleen?''"
    by simp
  have 3: "\<not> contains '' to the left of '' ''is the liver\<newline>to the left of the spleen?''"
    by simp
  have 4: "\<not> contains '' to the right of '' ''is the liver\<newline>to the left of the spleen?''"
    by simp
  have r: "resolve_objects wrapped_record = (Some ''liver'', Some ''spleen'')"
    by (simp add: resolve_objects_def wrapped_record_def falsy_def)
  have c: "scenario_3_centres ''ct.png'' \<noteq> None"
    by (simp add: scenario_3_centres_def)
  have t: "anatomy_truth scenario_3_centres ''ct.png'' wrapped_record = Some 0"
    unfolding anatomy_truth_def r q wrapped_lower
    by (simp add: scenario_3_centres_def scenario_3_slice_def canon_liver canon_spleen 3 4)
  from 1 2 r c t show ?thesis unfolding q wrapped_lower by simp
qed

text \<open>
  Claim C3, amended. When the two object names of a record are resolved and their
  centres are found, with x-coordinates \<open>cx1\<close> and \<open>cx2\<close>, the anatomy label is 1 if
  the question in lower case contains \<open>to the left of\<close> between two blanks and
  \<open>cx1 > cx2\<close>, or contains \<open>to the right of\<close> between two blanks and \<open>cx1 < cx2\<close>;
  otherwise it is 0. For a question that mentions left or right this label is what
  \<open>eval_run\<close> appends to the anatomy targets.
\<close>

theorem C3_anatomy_truth:
  assumes "resolve_objects r = (Some obj1, Some obj2)" and "obj1 \<noteq> []" and "obj2 \<noteq> []"
    and "centre_map fname = Some cm"
    and "cm (canon_name obj1) = Some (cx1, cy1)" and "cm (canon_name obj2) = Some (cx2, cy2)"
  shows "anatomy_truth centre_map fname r =
           Some (if (contains '' to the left of '' (lower (question r)) \<and> cx1 > cx2) \<or>
                    (contains '' to the right of '' (lower (question r)) \<and> cx1 < cx2)
                 then 1 else 0) \<and>
         (contains ''left'' (lower (question r)) \<or> contains ''right'' (lower (question r)) \<longrightarrow>
          anat_targs (eval_record centre_map fname st r) =
            anat_targs st @
              [if (contains '' to the left of '' (lower (question r)) \<and> cx1 > cx2) \<or>
                  (contains '' to the right of '' (lower (question r)) \<and> cx1 < cx2)
               then 1 else 0])"
proof -
  have t: "anatomy_truth centre_map fname r =
           Some (if (contains '' to the left of '' (lower (question r)) \<and> cx1 > cx2) \<or>
                    (contains '' to the right of '' (lower (question r)) \<and> cx1 < cx2)
                 then 1 else 0)"
    using assms by (simp add: anatomy_truth_def)
  show ?thesis
    unfolding t eval_record_def Let_def
    by (simp split: option.splits)
qed

lemma scenario_3_objects:
  "search_objects ''Is the liver to the left of the spleen?'' = Some (''liver'', ''spleen'')"
  by code_simp

lemma scenario_3_lower:
  "lower ''Is the liver to the left of the spleen?'' = ''is the liver to the left of the spleen?''"
  by (simp add: char_defs)


theorem C3_anatomy_truth_witness:
  "anatomy_truth scenario_3_centres ''ct.png'' scenario_3_record = Some 1"
proof -
  have r: "resolve_objects scenario_3_record = (Some ''liver'', Some ''spleen'')"
    by code_simp
  have n1: "''liver'' \<noteq> []" and n2: "''spleen'' \<noteq> []" by simp_all
  have c: "scenario_3_centres ''ct.png'' = Some scenario_3_slice"
    by (simp add: scenario_3_centres_def)
  have c1: "scenario_3_slice (canon_name ''liver'') = Some (120, 60)"
    by (simp add: canon_liver scenario_3_slice_def)
  have c2: "scenario_3_slice (canon_name ''spleen'') = Some (80, 64)"
    by (simp add: canon_spleen scenario_3_slice_def)
  have q: "lower (question scenario_3_record) = ''is the liver to the left of the spleen?''"
    by (simp add: scenario_3_record_def scenario_3_lower)
  have l: "contains '' to the left of '' ''is the liver to the left of the spleen?''"
    by simp
  from C3_anatomy_truth [where r = scenario_3_record and centre_map = scenario_3_centres
      and fname = "''ct.png''" and cm = scenario_3_slice, OF r n1 n2 c c1 c2]
  have "anatomy_truth scenario_3_centres ''ct.png'' scenario_3_record =
          Some (if (contains '' to the left of '' (lower (question scenario_3_record)) \<and> (120::real) > 80) \<or>
                   (contains '' to the right of '' (lower (question scenario_3_record)) \<and> (120::real) < 80)
                then 1 else 0)"
    by (rule conjunct1)
  then show ?thesis unfolding q using l by simp
qed

section \<open>Unparseable answers in the two evaluators\<close>










section \<open>Run files without records\<close>

lemma eval_entries_no_records:
  "\<forall>e\<in>set data. results_call e = [] \<Longrightarrow> eval_entries st data = Inr st"
  by (induction data) simp_all

lemma fold_eval_entry_no_records:
  "\<forall>e\<in>set data. results_call e = [] \<Longrightarrow>
   fold (\<lambda>e s. eval_entry centre_map s e) data st = st"
  by (induction data) (simp_all add: eval_entry_def)

text \<open>
  Claim C7. On a run file without any record the anatomy evaluator returns NaN for
  its four scores, with all counts 0, whatever the library does: each metric is
  guarded by \<open>if targs else float('nan')\<close>. The image evaluator has no such guard and
  hands the empty lists to scikit-learn: it returns what \<open>accuracy_score\<close> and
  \<open>f1_score\<close> return on empty lists, and raises when one of them raises.
\<close>

theorem C7_zero_records:
  assumes "\<forall>e\<in>set data. results_call e = []"
  shows "eval_run lib data centre_map =
           Inr \<lparr>anat_acc = NaN, anat_f1 = NaN, anat_correct = 0, anat_incorrect = 0,
                anat_total = 0, img_acc = NaN, img_f1 = NaN, img_correct = 0,
                img_incorrect = 0, img_total = 0\<rparr> \<and>
         evaluate_run lib data =
           (case accuracy_of_empty lib of
              Inl e \<Rightarrow> Inl e
            | Inr acc \<Rightarrow>
                (case f1_of_empty lib of
                   Inl e \<Rightarrow> Inl e
                 | Inr f \<Rightarrow>
                     Inr \<lparr>accuracy = acc, f1 = f, correct_count = 0, incorrect_count = 0,
                          unsure_count = 0\<rparr>))"
proof -
  have 1: "eval_entries init_state data = Inr init_state"
    using assms by (rule eval_entries_no_records)
  have 2: "fold (\<lambda>e s. eval_entry centre_map s e) data init_anat_state = init_anat_state"
    using assms by (rule fold_eval_entry_no_records)
  have a: "accuracy_score lib [] [] = accuracy_of_empty lib" by (simp add: accuracy_score_def)
  have f: "f1_score lib [] [] = f1_of_empty lib" by (simp add: f1_score_def)
  have "evaluate_run lib data =
           (case accuracy_of_empty lib of
              Inl e \<Rightarrow> Inl e
            | Inr acc \<Rightarrow>
                (case f1_of_empty lib of
                   Inl e \<Rightarrow> Inl e
                 | Inr f \<Rightarrow>
                     Inr \<lparr>accuracy = acc, f1 = f, correct_count = 0, incorrect_count = 0,
                          unsure_count = 0\<rparr>))"
    unfolding evaluate_run_def 1 by (simp add: init_state_def a f split: sum.splits)
  moreover have "eval_run lib data centre_map =
           Inr \<lparr>anat_acc = NaN, anat_f1 = NaN, anat_correct = 0, anat_incorrect = 0,
                anat_total = 0, img_acc = NaN, img_f1 = NaN, img_correct = 0,
                img_incorrect = 0, img_total = 0\<rparr>"
    unfolding eval_run_def 2 by (simp add: init_anat_state_def guarded_def)
  ultimately show ?thesis by simp
qed

theorem C7_zero_records_witness:
  "evaluate_run strict_library [] = Inl ValueError \<and>
   evaluate_run lenient_library [] =
     Inr \<lparr>accuracy = NaN, f1 = Fin 0, correct_count = 0, incorrect_count = 0,
          unsure_count = 0\<rparr> \<and>
   eval_run strict_library [] scenario_3_centres =
     Inr \<lparr>anat_acc = NaN, anat_f1 = NaN, anat_correct = 0, anat_incorrect = 0,
          anat_total = 0, img_acc = NaN, img_f1 = NaN, img_correct = 0,
          img_incorrect = 0, img_total = 0\<rparr>"
proof -
  have h: "\<forall>e\<in>set ([] :: entry list). results_call e = []" by simp
  from C7_zero_records [OF h, of strict_library scenario_3_centres]
       C7_zero_records [OF h, of lenient_library scenario_3_centres]
  show ?thesis by (simp add: strict_library_def lenient_library_def)
qed

end
